theory Spec2Isabelle
  imports Main
begin

section \<open>The terminal bridge of http2editor\<close>

text \<open>
  The server side (\<^verbatim>\<open>server.js\<close>) keeps a map \<^verbatim>\<open>terminalSessions\<close> from session ids
  to session objects \<^verbatim>\<open>{ pty, res }\<close>. The handlers of the three terminal routes and
  the \<^verbatim>\<open>onData\<close>/\<open>onExit\<close> callbacks of each spawned process are modelled as
  functions on an explicit server state. Session objects live in a heap, since the map,
  the \<^verbatim>\<open>close\<close> handler of every request and the route handlers all share them by
  reference. Responses, processes and session objects are numbered in the order of their
  creation.
\<close>

subsection \<open>JSON values of a request body\<close>

text \<open>
  \<^verbatim>\<open>express.json()\<close> leaves the parsed object in \<^verbatim>\<open>req.body\<close>; a field that is
  absent reads as \<^verbatim>\<open>undefined\<close> (here \<open>None\<close>). Numbers are restricted to integers.
\<close>

datatype json = JNull | JBool bool | JNum int | JStr string
  | JArr "json list" | JObj "(string \<times> json) list"

type_synonym body = "string \<rightharpoonup> json"

text \<open>JavaScript truthiness, as tested by \<^verbatim>\<open>!input\<close>.\<close>

fun truthy :: "json \<Rightarrow> bool" where
  "truthy JNull = False"
| "truthy (JBool b) = b"
| "truthy (JNum n) = (n \<noteq> 0)"
| "truthy (JStr s) = (s \<noteq> [])"
| "truthy (JArr xs) = True"
| "truthy (JObj kvs) = True"

subsection \<open>Frames, responses, sessions and processes\<close>

text \<open>
  The frames of the push channel. A frame stands for the message
  \<^verbatim>\<open>data: ${JSON.stringify(...)}\n\n\<close>; the client reads it back with \<^verbatim>\<open>JSON.parse\<close>.
\<close>

datatype frame =
    FConnected
  | FOutput string
  | FError string
  | FExit int "int option"

text \<open>
  One record per GET request of the push channel: the state of its response object
  \<^verbatim>\<open>res\<close> and the constant \<^verbatim>\<open>session\<close> that the \<^verbatim>\<open>close\<close> handler of the request
  captured (a heap address, \<open>None\<close> for \<^verbatim>\<open>undefined\<close>).
\<close>

record connection =
  destroyed :: bool
  ended :: bool
  written :: "frame list"
  session_ref :: "nat option"

text \<open>The session object \<^verbatim>\<open>{ pty: ptyProcess, res }\<close>.\<close>

record session =
  pty :: nat
  res :: "nat option"

text \<open>
  A spawned process with the variables its \<^verbatim>\<open>onData\<close> and \<^verbatim>\<open>onExit\<close> callbacks
  closed over (\<^verbatim>\<open>sessionId\<close> and \<^verbatim>\<open>res\<close> of the request that spawned it), the
  values that calls of \<^verbatim>\<open>write\<close> passed to it, the arguments of every call of
  \<^verbatim>\<open>resize\<close> that a handler made on it, whether the call returned or threw, and its
  geometry: the \<^verbatim>\<open>cols\<close> and \<^verbatim>\<open>rows\<close> of the spawn, then those of the last
  \<^verbatim>\<open>resize\<close> that returned.
\<close>

record pty_process =
  closure_sessionId :: string
  closure_res :: nat
  exited :: bool
  killed :: bool
  prompt_timer :: bool
  pty_writes :: "json list"
  pty_resizes :: "(json option \<times> json option) list"
  geometry :: "json option \<times> json option"

record server =
  terminalSessions :: "string \<rightharpoonup> nat"
  heap :: "session list"
  procs :: "pty_process list"
  conns :: "connection list"

definition init_server :: server where
  "init_server = \<lparr>terminalSessions = Map.empty, heap = [], procs = [], conns = []\<rparr>"

definition deref :: "'a list \<Rightarrow> nat \<Rightarrow> 'a option" where
  "deref xs i = (if i < length xs then Some (xs ! i) else None)"

definition update_at :: "nat \<Rightarrow> ('a \<Rightarrow> 'a) \<Rightarrow> 'a list \<Rightarrow> 'a list" where
  "update_at i f xs = (if i < length xs then xs[i := f (xs ! i)] else xs)"

text \<open>
  \<^verbatim>\<open>res.write(message)\<close>: the frame is appended to what the response delivered.
  Nothing is delivered on a response that \<^verbatim>\<open>res.end()\<close> has finished.
\<close>

definition res_write :: "frame \<Rightarrow> connection \<Rightarrow> connection" where
  "res_write f c = (if ended c then c else c\<lparr>written := written c @ [f]\<rparr>)"

definition res_end :: "connection \<Rightarrow> connection" where
  "res_end c = c\<lparr>ended := True\<rparr>"

definition live :: "server \<Rightarrow> nat \<Rightarrow> bool" where
  "live s r = (case deref (conns s) r of None \<Rightarrow> False | Some c \<Rightarrow> \<not> destroyed c)"

subsection \<open>GET /api/terminal/:sessionId\<close>

definition spawn :: "string \<Rightarrow> nat \<Rightarrow> pty_process" where
  "spawn sessionId r =
     \<lparr>closure_sessionId = sessionId, closure_res = r, exited = False, killed = False,
      prompt_timer = True, pty_writes = [], pty_resizes = [],
      geometry = (Some (JNum 80), Some (JNum 24))\<rparr>"

definition get_terminal :: "string \<Rightarrow> server \<Rightarrow> server" where
  "get_terminal sessionId s =
     (let r = length (conns s);
          s1 = s\<lparr>conns := conns s @
                 [\<lparr>destroyed = False, ended = False, written = [FConnected],
                   session_ref = None\<rparr>]\<rparr>;
          s2 = (case terminalSessions s1 sessionId of
                  None \<Rightarrow>
                    s1\<lparr>procs := procs s1 @ [spawn sessionId r],
                       heap := heap s1 @ [\<lparr>pty = length (procs s1), res = Some r\<rparr>],
                       terminalSessions := (terminalSessions s1)(sessionId \<mapsto> length (heap s1))\<rparr>
                | Some a \<Rightarrow>
                    s1\<lparr>heap := update_at a (\<lambda>obj. obj\<lparr>res := Some r\<rparr>) (heap s1)\<rparr>)
      in s2\<lparr>conns := update_at r (\<lambda>c. c\<lparr>session_ref := terminalSessions s2 sessionId\<rparr>)
                         (conns s2)\<rparr>)"

text \<open>The \<^verbatim>\<open>close\<close> handler of request \<open>r\<close>: \<^verbatim>\<open>if (session) { session.res = null; }\<close>.\<close>

definition req_on_close :: "nat \<Rightarrow> server \<Rightarrow> server" where
  "req_on_close r s =
     (case deref (conns s) r of
        None \<Rightarrow> s
      | Some c \<Rightarrow>
          (case session_ref c of
             None \<Rightarrow> s
           | Some a \<Rightarrow> s\<lparr>heap := update_at a (\<lambda>obj. obj\<lparr>res := None\<rparr>) (heap s)\<rparr>))"

text \<open>The client of response \<open>r\<close> goes away: the response is destroyed and the handler runs.\<close>

definition client_disconnect :: "nat \<Rightarrow> server \<Rightarrow> server" where
  "client_disconnect r s =
     req_on_close r (s\<lparr>conns := update_at r (\<lambda>c. c\<lparr>destroyed := True\<rparr>) (conns s)\<rparr>)"

text \<open>
  The \<^verbatim>\<open>onData\<close> callback of process \<open>p\<close>. It tests the response \<^verbatim>\<open>res\<close> it
  closed over first and looks the session up only when that response is destroyed. The
  flush after each write does not change the state, and \<^verbatim>\<open>res.write\<close> is taken to
  return normally, so the two \<^verbatim>\<open>catch\<close> blocks are not entered.
\<close>

definition pty_onData :: "nat \<Rightarrow> string \<Rightarrow> server \<Rightarrow> server" where
  "pty_onData p data s =
     (case deref (procs s) p of
        None \<Rightarrow> s
      | Some pr \<Rightarrow>
          if live s (closure_res pr)
          then s\<lparr>conns := update_at (closure_res pr) (res_write (FOutput data)) (conns s)\<rparr>
          else
            (case terminalSessions s (closure_sessionId pr) of
               None \<Rightarrow> s
             | Some a \<Rightarrow>
                 (case deref (heap s) a of
                    None \<Rightarrow> s
                  | Some obj \<Rightarrow>
                      (case res obj of
                         None \<Rightarrow> s
                       | Some r' \<Rightarrow>
                           if live s r'
                           then s\<lparr>conns := update_at r' (res_write (FOutput data)) (conns s)\<rparr>
                           else s))))"

text \<open>
  The \<^verbatim>\<open>onExit\<close> callback of process \<open>p\<close>: the exit frame goes to the response
  \<^verbatim>\<open>res\<close> it closed over when that is not destroyed, then the id is deleted.
\<close>

definition pty_onExit :: "nat \<Rightarrow> int \<Rightarrow> int option \<Rightarrow> server \<Rightarrow> server" where
  "pty_onExit p exitCode signal s =
     (case deref (procs s) p of
        None \<Rightarrow> s
      | Some pr \<Rightarrow>
          (let s1 = (if live s (closure_res pr)
                     then s\<lparr>conns := update_at (closure_res pr)
                                (\<lambda>c. res_end (res_write (FExit exitCode signal) c)) (conns s)\<rparr>
                     else s)
           in s1\<lparr>terminalSessions := (terminalSessions s1)(closure_sessionId pr := None)\<rparr>))"

text \<open>
  The timer set 100 ms after the spawn:
  \<^verbatim>\<open>if (ptyProcess && !ptyProcess.killed) { ptyProcess.write('\r\n'); }\<close>.
\<close>

definition prompt_timeout :: "nat \<Rightarrow> server \<Rightarrow> server" where
  "prompt_timeout p s =
     s\<lparr>procs := update_at p
         (\<lambda>pr. if killed pr then pr\<lparr>prompt_timer := False\<rparr>
               else pr\<lparr>prompt_timer := False,
                      pty_writes := pty_writes pr @ [JStr [CHR 0x0D, CHR 0x0A]]\<rparr>)
         (procs s)\<rparr>"

subsection \<open>POST /api/terminal/:sessionId/input and /resize\<close>

datatype reply_body = Success | ErrorMsg string

text \<open>
  A reply is a status with a JSON body; \<open>Uncaught\<close> is a handler that threw without
  answering (the exception is left to the framework).
\<close>

datatype reply = Reply nat reply_body | Uncaught

definition get_session :: "server \<Rightarrow> string \<Rightarrow> session option" where
  "get_session s sessionId =
     (case terminalSessions s sessionId of None \<Rightarrow> None | Some a \<Rightarrow> deref (heap s) a)"

text \<open>
  The flag \<open>throws\<close> is the environment's choice whether \<^verbatim>\<open>session.pty.write\<close>
  raises in this call; the handler catches it.
\<close>

definition post_input :: "string \<Rightarrow> body \<Rightarrow> bool \<Rightarrow> server \<Rightarrow> reply \<times> server" where
  "post_input sessionId b throws s =
     (case b ''input'' of
        None \<Rightarrow> (Reply 400 (ErrorMsg ''Input is required''), s)
      | Some input \<Rightarrow>
          if \<not> truthy input then (Reply 400 (ErrorMsg ''Input is required''), s)
          else
            (case get_session s sessionId of
               None \<Rightarrow> (Reply 404 (ErrorMsg ''Session not found. Please refresh the page.''), s)
             | Some obj \<Rightarrow>
                 if throws then (Reply 500 (ErrorMsg ''Failed to write to terminal''), s)
                 else (Reply 200 Success,
                       s\<lparr>procs := update_at (pty obj)
                            (\<lambda>pr. pr\<lparr>pty_writes := pty_writes pr @ [input]\<rparr>) (procs s)\<rparr>)))"

text \<open>
  The resize handler calls \<^verbatim>\<open>session.pty.resize(cols, rows)\<close> with the two fields of
  the body as they are, and has no \<^verbatim>\<open>try\<close>. The flag \<open>throws\<close> is the environment's
  choice whether that call raises: then the call has been made, the geometry of the
  process is what it was, and the handler does not answer; otherwise the process has the
  new geometry.
\<close>

definition post_resize :: "string \<Rightarrow> body \<Rightarrow> bool \<Rightarrow> server \<Rightarrow> reply \<times> server" where
  "post_resize sessionId b throws s =
     (case get_session s sessionId of
        None \<Rightarrow> (Reply 404 (ErrorMsg ''Session not found''), s)
      | Some obj \<Rightarrow>
          if throws
          then (Uncaught,
                s\<lparr>procs := update_at (pty obj)
                     (\<lambda>pr. pr\<lparr>pty_resizes := pty_resizes pr @ [(b ''cols'', b ''rows'')]\<rparr>)
                     (procs s)\<rparr>)
          else (Reply 200 Success,
                s\<lparr>procs := update_at (pty obj)
                     (\<lambda>pr. pr\<lparr>pty_resizes := pty_resizes pr @ [(b ''cols'', b ''rows'')],
                            geometry := (b ''cols'', b ''rows'')\<rparr>)
                     (procs s)\<rparr>))"

subsection \<open>Events of the server and its runs\<close>

datatype event =
    Attach string
  | Disconnect nat
  | Data nat string
  | ProcExit nat int "int option"
  | PromptTimer nat
  | Input string body bool
  | Resize string body bool

fun step :: "event \<Rightarrow> server \<Rightarrow> server" where
  "step (Attach sessionId) s = get_terminal sessionId s"
| "step (Disconnect r) s = client_disconnect r s"
| "step (Data p d) s = pty_onData p d s"
| "step (ProcExit p c g) s =
     pty_onExit p c g (s\<lparr>procs := update_at p (\<lambda>pr. pr\<lparr>exited := True\<rparr>) (procs s)\<rparr>)"
| "step (PromptTimer p) s = prompt_timeout p s"
| "step (Input sessionId b t) s = snd (post_input sessionId b t s)"
| "step (Resize sessionId b t) s = snd (post_resize sessionId b t s)"

text \<open>
  What the environment can do: a connection closes once, a process emits data and exits
  only while it runs and exits once, its prompt timer fires once.
\<close>

fun enabled :: "event \<Rightarrow> server \<Rightarrow> bool" where
  "enabled (Attach sessionId) s = True"
| "enabled (Disconnect r) s = live s r"
| "enabled (Data p d) s = (case deref (procs s) p of None \<Rightarrow> False | Some pr \<Rightarrow> \<not> exited pr)"
| "enabled (ProcExit p c g) s =
     (case deref (procs s) p of None \<Rightarrow> False | Some pr \<Rightarrow> \<not> exited pr)"
| "enabled (PromptTimer p) s =
     (case deref (procs s) p of None \<Rightarrow> False | Some pr \<Rightarrow> prompt_timer pr)"
| "enabled (Input sessionId b t) s = True"
| "enabled (Resize sessionId b t) s = True"

fun exec :: "event list \<Rightarrow> server \<Rightarrow> server" where
  "exec [] s = s"
| "exec (e # es) s = exec es (if enabled e s then step e s else s)"

subsection \<open>The invariant of the registry\<close>

text \<open>
  In every state the server can reach, session objects and processes are created in
  pairs (the session at address \<open>a\<close> owns process \<open>a\<close>), a registered id names the
  session of a process that was spawned for this id and has not exited, and every process
  that has not exited is registered under its id.
\<close>

definition wf :: "server \<Rightarrow> bool" where
  "wf s \<longleftrightarrow>
     map pty (heap s) = [0..<length (procs s)] \<and>
     (\<forall>sid a. terminalSessions s sid = Some a \<longrightarrow>
        a < length (procs s) \<and> closure_sessionId (procs s ! a) = sid \<and> \<not> exited (procs s ! a)) \<and>
     (\<forall>p < length (procs s). \<not> exited (procs s ! p) \<longrightarrow>
        terminalSessions s (closure_sessionId (procs s ! p)) = Some p)"

text \<open>Everything a process was asked to write is a truthy value.\<close>

definition writes_truthy :: "server \<Rightarrow> bool" where
  "writes_truthy s = list_all (\<lambda>pr. list_all truthy (pty_writes pr)) (procs s)"

subsection \<open>The client: input queue (app.js)\<close>

text \<open>
  The variables \<^verbatim>\<open>inputQueue\<close>, \<^verbatim>\<open>isProcessingInput\<close> and \<^verbatim>\<open>lastInputTime\<close> of
  \<^verbatim>\<open>initializeTerminal\<close>, together with what the page has outstanding: the inputs
  handed to \<^verbatim>\<open>sendTerminalInput\<close> in call order, the number of its promises that have
  not settled, and the number of \<^verbatim>\<open>requestAnimationFrame(processInputQueue)\<close>
  callbacks that have not run.
\<close>

record terminal_input =
  inputQueue :: "string list"
  isProcessingInput :: bool
  lastInputTime :: int
  requests :: "string list"
  in_flight :: nat
  frame_callbacks :: nat

definition INPUT_DEBOUNCE_MS :: int where
  "INPUT_DEBOUNCE_MS = 5"

definition init_input :: terminal_input where
  "init_input =
     \<lparr>inputQueue = [], isProcessingInput = False, lastInputTime = 0, requests = [],
      in_flight = 0, frame_callbacks = 0\<rparr>"

definition processInputQueue :: "terminal_input \<Rightarrow> terminal_input" where
  "processInputQueue s =
     (if isProcessingInput s then s
      else
        (case inputQueue s of
           [] \<Rightarrow> s
         | input # rest \<Rightarrow>
             s\<lparr>inputQueue := rest, isProcessingInput := True,
               requests := requests s @ [input], in_flight := Suc (in_flight s)\<rparr>))"

text \<open>The \<^verbatim>\<open>finally\<close> handler of a request that settled, with success or failure.\<close>

definition request_settled :: "terminal_input \<Rightarrow> terminal_input" where
  "request_settled s =
     (let s1 = s\<lparr>isProcessingInput := False, in_flight := in_flight s - 1\<rparr>
      in if inputQueue s1 \<noteq> [] then s1\<lparr>frame_callbacks := Suc (frame_callbacks s1)\<rparr>
         else s1)"

definition animation_frame :: "terminal_input \<Rightarrow> terminal_input" where
  "animation_frame s = processInputQueue (s\<lparr>frame_callbacks := frame_callbacks s - 1\<rparr>)"

text \<open>
  The test of the \<^verbatim>\<open>terminal.onData\<close> handler that returns early; \<open>now\<close> is
  \<^verbatim>\<open>Date.now()\<close>.
\<close>

definition suppressed :: "string \<Rightarrow> int \<Rightarrow> terminal_input \<Rightarrow> bool" where
  "suppressed data now s \<longleftrightarrow> now - lastInputTime s < INPUT_DEBOUNCE_MS \<and> length data = 1"

definition terminal_onData :: "string \<Rightarrow> int \<Rightarrow> terminal_input \<Rightarrow> terminal_input" where
  "terminal_onData data now s =
     (if suppressed data now s then s
      else
        (let s1 = s\<lparr>lastInputTime := now, inputQueue := inputQueue s @ [data]\<rparr>
         in if \<not> isProcessingInput s1 then processInputQueue s1 else s1))"

datatype input_event = Key string int | Settled | Frame

fun input_step :: "input_event \<Rightarrow> terminal_input \<Rightarrow> terminal_input" where
  "input_step (Key data now) s = terminal_onData data now s"
| "input_step Settled s = request_settled s"
| "input_step Frame s = animation_frame s"

text \<open>Only an outstanding request can settle, only a requested frame callback can run.\<close>

fun input_enabled :: "input_event \<Rightarrow> terminal_input \<Rightarrow> bool" where
  "input_enabled (Key data now) s = True"
| "input_enabled Settled s = (0 < in_flight s)"
| "input_enabled Frame s = (0 < frame_callbacks s)"

fun input_exec :: "input_event list \<Rightarrow> terminal_input \<Rightarrow> terminal_input" where
  "input_exec [] s = s"
| "input_exec (e # es) s = input_exec es (if input_enabled e s then input_step e s else s)"

text \<open>The keystrokes that a run pushes on the queue, in the order of their arrival.\<close>

fun pushed :: "input_event \<Rightarrow> terminal_input \<Rightarrow> string list" where
  "pushed (Key data now) s = (if suppressed data now s then [] else [data])"
| "pushed Settled s = []"
| "pushed Frame s = []"

fun enqueued :: "input_event list \<Rightarrow> terminal_input \<Rightarrow> string list" where
  "enqueued [] s = []"
| "enqueued (e # es) s =
     (if input_enabled e s then pushed e s @ enqueued es (input_step e s) else enqueued es s)"

text \<open>The schedule that lets the outstanding request settle and then runs a frame, \<open>n\<close> times.\<close>

fun drain :: "nat \<Rightarrow> input_event list" where
  "drain 0 = []"
| "drain (Suc n) = Settled # Frame # drain n"

definition input_inv :: "terminal_input \<Rightarrow> bool" where
  "input_inv s \<longleftrightarrow>
     in_flight s = (if isProcessingInput s then 1 else 0) \<and>
     (isProcessingInput s \<or> inputQueue s = [] \<or> 0 < frame_callbacks s)"

subsection \<open>The client: connection of the push channel (app.js)\<close>

datatype ready_state = CONNECTING | OPEN | CLOSED

text \<open>
  What a message event carries after \<^verbatim>\<open>JSON.parse\<close>: a frame, an object of another
  type, or text that makes the handler throw.
\<close>

datatype message = Msg frame | UnknownType | Malformed

text \<open>
  The arguments of \<^verbatim>\<open>terminal.write\<close>: a flushed output buffer, or one of the fixed
  status lines the page prints (named here by their content, without the colour codes).
\<close>

datatype notice =
    Initialized
  | TerminalConnected
  | ShellStarting
  | ServerError string
  | SessionEnded
  | ParseError
  | ConnectingNotice
  | ConnectionClosed
  | NoOutputWarning

datatype term_write = Rendered string | Notice notice

datatype timer_callback = InitialConnect | Reconnect | OutputWarning

text \<open>
  One record per call of \<^verbatim>\<open>connectTerminal\<close>: the \<^verbatim>\<open>EventSource\<close> it created and the
  variables \<^verbatim>\<open>writeBuffer\<close> and \<^verbatim>\<open>writeTimer\<close> of that call (the timer is a flag:
  a flush is pending or not).
\<close>

record event_source =
  url_session :: string
  readyState :: ready_state
  writeBuffer :: string
  writeTimer :: bool

text \<open>
  The page: its globals \<^verbatim>\<open>terminalSessionId\<close>, \<^verbatim>\<open>sessionReady\<close> and
  \<^verbatim>\<open>eventSource\<close> (an index into \<open>sources\<close>), the pending \<^verbatim>\<open>setTimeout\<close> callbacks
  with their delays in ms, the pending animation-frame callbacks of \<^verbatim>\<open>flushBuffer\<close>
  (each the index of its closure) and everything written to the terminal.
\<close>

record client =
  terminalSessionId :: string
  sessionReady :: bool
  eventSource :: "nat option"
  sources :: "event_source list"
  timers :: "(nat \<times> timer_callback) list"
  frame_queue :: "nat list"
  terminal :: "term_write list"

definition BATCH_DELAY_MS :: nat where
  "BATCH_DELAY_MS = 8"

definition MAX_BUFFER_SIZE :: nat where
  "MAX_BUFFER_SIZE = 4096"

definition init_client :: "string \<Rightarrow> client" where
  "init_client sid =
     \<lparr>terminalSessionId = sid, sessionReady = False, eventSource = None, sources = [],
      timers = [(100, InitialConnect)], frame_queue = [], terminal = [Notice Initialized]\<rparr>"

definition terminal_write :: "term_write \<Rightarrow> client \<Rightarrow> client" where
  "terminal_write w s = s\<lparr>terminal := terminal s @ [w]\<rparr>"

definition connectTerminal :: "client \<Rightarrow> client" where
  "connectTerminal s =
     s\<lparr>sessionReady := False,
       eventSource := Some (length (sources s)),
       sources := sources s @
         [\<lparr>url_session = terminalSessionId s, readyState = CONNECTING, writeBuffer = [],
           writeTimer = False\<rparr>]\<rparr>"

definition flushBuffer :: "nat \<Rightarrow> client \<Rightarrow> client" where
  "flushBuffer i s =
     (case deref (sources s) i of
        None \<Rightarrow> s
      | Some src \<Rightarrow>
          (let s1 = (if writeBuffer src \<noteq> [] then s\<lparr>frame_queue := frame_queue s @ [i]\<rparr>
                     else s)
           in if writeTimer src
              then s1\<lparr>sources := update_at i (\<lambda>x. x\<lparr>writeTimer := False\<rparr>) (sources s1)\<rparr>
              else s1))"

definition scheduleFlush :: "nat \<Rightarrow> client \<Rightarrow> client" where
  "scheduleFlush i s =
     s\<lparr>sources := update_at i (\<lambda>x. if writeTimer x then x else x\<lparr>writeTimer := True\<rparr>)
                     (sources s)\<rparr>"

text \<open>The animation-frame callback that \<^verbatim>\<open>flushBuffer\<close> of closure \<open>i\<close> requested.\<close>

definition render_frame :: "nat \<Rightarrow> client \<Rightarrow> client" where
  "render_frame i s =
     (case deref (sources s) i of
        None \<Rightarrow> s
      | Some src \<Rightarrow>
          (terminal_write (Rendered (writeBuffer src)) s)
            \<lparr>sources := update_at i (\<lambda>x. x\<lparr>writeBuffer := []\<rparr>) (sources s)\<rparr>)"

text \<open>\<^verbatim>\<open>eventSource.readyState\<close> and \<^verbatim>\<open>eventSource.close()\<close> of the global.\<close>

definition current_readyState :: "client \<Rightarrow> ready_state option" where
  "current_readyState s =
     (case eventSource s of
        None \<Rightarrow> None
      | Some j \<Rightarrow> map_option readyState (deref (sources s) j))"

definition eventSource_close :: "client \<Rightarrow> client" where
  "eventSource_close s =
     (case eventSource s of
        None \<Rightarrow> s
      | Some j \<Rightarrow> s\<lparr>sources := update_at j (\<lambda>x. x\<lparr>readyState := CLOSED\<rparr>) (sources s)\<rparr>)"

definition source_onopen :: "nat \<Rightarrow> client \<Rightarrow> client" where
  "source_onopen i s = terminal_write (Notice TerminalConnected) (s\<lparr>sessionReady := True\<rparr>)"

definition source_onmessage :: "nat \<Rightarrow> message \<Rightarrow> client \<Rightarrow> client" where
  "source_onmessage i m s =
     (case m of
        Malformed \<Rightarrow> terminal_write (Notice ParseError) (flushBuffer i s)
      | UnknownType \<Rightarrow> s
      | Msg (FOutput d) \<Rightarrow>
          (let s1 = s\<lparr>sessionReady := True,
                      sources := update_at i (\<lambda>x. x\<lparr>writeBuffer := writeBuffer x @ d\<rparr>)
                                   (sources s)\<rparr>
           in if (case deref (sources s1) i of
                    None \<Rightarrow> False
                  | Some src \<Rightarrow> MAX_BUFFER_SIZE \<le> length (writeBuffer src))
              then flushBuffer i s1
              else scheduleFlush i s1)
      | Msg FConnected \<Rightarrow> terminal_write (Notice ShellStarting) (s\<lparr>sessionReady := True\<rparr>)
      | Msg (FError d) \<Rightarrow> terminal_write (Notice (ServerError d)) (flushBuffer i s)
      | Msg (FExit c g) \<Rightarrow>
          eventSource_close
            ((terminal_write (Notice SessionEnded) (flushBuffer i s))\<lparr>sessionReady := False\<rparr>))"

definition source_onerror :: "nat \<Rightarrow> client \<Rightarrow> client" where
  "source_onerror i s =
     (let s1 = flushBuffer i s in
      case current_readyState s1 of
        Some CONNECTING \<Rightarrow> terminal_write (Notice ConnectingNotice) s1
      | Some CLOSED \<Rightarrow>
          (terminal_write (Notice ConnectionClosed) s1)
            \<lparr>sessionReady := False, timers := timers s1 @ [(1000, Reconnect)]\<rparr>
      | _ \<Rightarrow> s1)"

fun run_timer :: "timer_callback \<Rightarrow> client \<Rightarrow> client" where
  "run_timer InitialConnect s =
     (let s1 = connectTerminal s in s1\<lparr>timers := timers s1 @ [(2000, OutputWarning)]\<rparr>)"
| "run_timer Reconnect s = connectTerminal s"
| "run_timer OutputWarning s =
     (if \<not> sessionReady s then terminal_write (Notice NoOutputWarning) s else s)"

text \<open>
  The events of the page. \<open>Timeout k\<close> fires the \<open>k\<close>-th pending timer;
  \<open>TransportError i st\<close> is an error event of source \<open>i\<close> that the browser dispatches
  after setting its \<^verbatim>\<open>readyState\<close> to \<open>st\<close> (\<open>CONNECTING\<close> when it retries by
  itself, \<open>CLOSED\<close> when it gives up); \<open>Visible\<close> is the page regaining visibility or
  focus, which runs the \<^verbatim>\<open>flushBuffer\<close> of every closure.
\<close>

datatype client_event =
    Timeout nat
  | Opened nat
  | Message nat message
  | TransportError nat ready_state
  | WriteTimeout nat
  | AnimationFrame
  | Visible

fun client_step :: "client_event \<Rightarrow> client \<Rightarrow> client" where
  "client_step (Timeout k) s =
     (case deref (timers s) k of
        None \<Rightarrow> s
      | Some t \<Rightarrow> run_timer (snd t) (s\<lparr>timers := take k (timers s) @ drop (Suc k) (timers s)\<rparr>))"
| "client_step (Opened i) s =
     source_onopen i (s\<lparr>sources := update_at i (\<lambda>x. x\<lparr>readyState := OPEN\<rparr>) (sources s)\<rparr>)"
| "client_step (Message i m) s = source_onmessage i m s"
| "client_step (TransportError i st) s =
     source_onerror i (s\<lparr>sources := update_at i (\<lambda>x. x\<lparr>readyState := st\<rparr>) (sources s)\<rparr>)"
| "client_step (WriteTimeout i) s = flushBuffer i s"
| "client_step AnimationFrame s =
     (case frame_queue s of [] \<Rightarrow> s | i # rest \<Rightarrow> render_frame i (s\<lparr>frame_queue := rest\<rparr>))"
| "client_step Visible s = fold flushBuffer [0..<length (sources s)] s"

definition source_state :: "client \<Rightarrow> nat \<Rightarrow> ready_state option" where
  "source_state s i = map_option readyState (deref (sources s) i)"

fun client_enabled :: "client_event \<Rightarrow> client \<Rightarrow> bool" where
  "client_enabled (Timeout k) s = (k < length (timers s))"
| "client_enabled (Opened i) s = (source_state s i = Some CONNECTING)"
| "client_enabled (Message i m) s = (source_state s i = Some OPEN)"
| "client_enabled (TransportError i st) s =
     ((source_state s i = Some CONNECTING \<or> source_state s i = Some OPEN) \<and> st \<noteq> OPEN)"
| "client_enabled (WriteTimeout i) s =
     (case deref (sources s) i of None \<Rightarrow> False | Some src \<Rightarrow> writeTimer src)"
| "client_enabled AnimationFrame s = (frame_queue s \<noteq> [])"
| "client_enabled Visible s = True"

fun client_exec :: "client_event list \<Rightarrow> client \<Rightarrow> client" where
  "client_exec [] s = s"
| "client_exec (e # es) s = client_exec es (if client_enabled e s then client_step e s else s)"

text \<open>No source is open or connecting and no timer would call \<^verbatim>\<open>connectTerminal\<close>.\<close>

definition dormant :: "client \<Rightarrow> bool" where
  "dormant s \<longleftrightarrow>
     list_all (\<lambda>src. readyState src = CLOSED) (sources s) \<and>
     list_all (\<lambda>t. snd t = OutputWarning) (timers s)"

text \<open>The page keeps its session id and every source was opened for it.\<close>

definition urls_ok :: "string \<Rightarrow> client \<Rightarrow> bool" where
  "urls_ok sid s \<longleftrightarrow> terminalSessionId s = sid \<and> list_all (\<lambda>u. u = sid) (map url_session (sources s))"

text \<open>
  \<open>n\<close> rounds of: the current source reports a transport error in the closed state, then
  the timer set last fires.
\<close>

fun outages :: "nat \<Rightarrow> client \<Rightarrow> client" where
  "outages 0 s = s"
| "outages (Suc n) s =
     (let s' = outages n s
      in client_exec
           [TransportError (length (sources s') - 1) CLOSED, Timeout (length (timers s'))] s')"

text \<open>The source opened last is the current one and it is connecting.\<close>

definition connecting_last :: "client \<Rightarrow> bool" where
  "connecting_last s \<longleftrightarrow>
     sources s \<noteq> [] \<and> eventSource s = Some (length (sources s) - 1) \<and>
     source_state s (length (sources s) - 1) = Some CONNECTING"

section \<open>Lemmas about the server state\<close>

lemma length_update_at [simp]: "length (update_at i f xs) = length xs"
  by (simp add: update_at_def)

lemma nth_update_at:
  "j < length xs \<Longrightarrow> update_at i f xs ! j = (if j = i then f (xs ! j) else xs ! j)"
  by (simp add: update_at_def)

lemma map_update_at_same:
  "(\<And>x. g (f x) = g x) \<Longrightarrow> map g (update_at i f xs) = map g xs"
  by (rule nth_equalityI) (simp_all add: nth_update_at)

lemma wf_init: "wf init_server"
  by (simp add: wf_def init_server_def)

lemma get_terminal_sessions:
  "terminalSessions (get_terminal sid s) =
     (case terminalSessions s sid of None \<Rightarrow> (terminalSessions s)(sid \<mapsto> length (heap s))
      | Some a \<Rightarrow> terminalSessions s)"
  by (simp add: get_terminal_def Let_def split: option.splits)

lemma get_terminal_procs:
  "procs (get_terminal sid s) =
     (case terminalSessions s sid of None \<Rightarrow> procs s @ [spawn sid (length (conns s))]
      | Some a \<Rightarrow> procs s)"
  by (simp add: get_terminal_def Let_def split: option.splits)

lemma get_terminal_heap:
  "heap (get_terminal sid s) =
     (case terminalSessions s sid of
        None \<Rightarrow> heap s @ [\<lparr>pty = length (procs s), res = Some (length (conns s))\<rparr>]
      | Some a \<Rightarrow> update_at a (\<lambda>obj. obj\<lparr>res := Some (length (conns s))\<rparr>) (heap s))"
  by (simp add: get_terminal_def Let_def split: option.splits)

text \<open>The invariant only reads these projections of the state.\<close>

lemma wf_cong:
  assumes "wf s"
    and "terminalSessions s' = terminalSessions s"
    and "map pty (heap s') = map pty (heap s)"
    and "map closure_sessionId (procs s') = map closure_sessionId (procs s)"
    and "map exited (procs s') = map exited (procs s)"
  shows "wf s'"
proof -
  have len: "length (procs s') = length (procs s)"
    using assms(4) by (rule map_eq_imp_length_eq)
  have sid: "closure_sessionId (procs s' ! p) = closure_sessionId (procs s ! p)"
    if "p < length (procs s)" for p
  proof -
    have "map closure_sessionId (procs s') ! p = map closure_sessionId (procs s) ! p"
      by (simp only: assms(4))
    with that len show ?thesis by simp
  qed
  have ex: "exited (procs s' ! p) = exited (procs s ! p)" if "p < length (procs s)" for p
  proof -
    have "map exited (procs s') ! p = map exited (procs s) ! p"
      by (simp only: assms(5))
    with that len show ?thesis by simp
  qed
  show ?thesis
    using assms(1) unfolding wf_def by (simp add: assms(2,3) len sid ex)
qed

lemma wf_get_terminal:
  assumes "wf s"
  shows "wf (get_terminal sid s)"
proof (cases "terminalSessions s sid")
  case (Some a)
  show ?thesis
    by (rule wf_cong [OF assms])
       (simp_all add: Some get_terminal_sessions get_terminal_procs get_terminal_heap
          map_update_at_same)
next
  case None
  let ?s' = "get_terminal sid s"
  let ?n = "length (procs s)"
  have lh: "length (heap s) = ?n"
    using assms unfolding wf_def by (metis length_map length_upt minus_nat.diff_0)
  have reg: "terminalSessions ?s' = (terminalSessions s)(sid \<mapsto> ?n)"
    by (simp add: get_terminal_sessions None lh)
  have pr: "procs ?s' = procs s @ [spawn sid (length (conns s))]"
    by (simp add: get_terminal_procs None)
  have hp: "map pty (heap ?s') = [0..<length (procs ?s')]"
    using assms by (simp add: get_terminal_heap None pr wf_def)
  have b: "a < length (procs ?s') \<and> closure_sessionId (procs ?s' ! a) = sid'
             \<and> \<not> exited (procs ?s' ! a)"
    if "terminalSessions ?s' sid' = Some a" for sid' a
  proof (cases "sid' = sid")
    case True
    with that have "a = ?n" by (simp add: reg)
    with True show ?thesis by (simp add: pr spawn_def)
  next
    case False
    with that have "terminalSessions s sid' = Some a" by (simp add: reg)
    with assms have "a < ?n" "closure_sessionId (procs s ! a) = sid'" "\<not> exited (procs s ! a)"
      unfolding wf_def by blast+
    then show ?thesis by (simp add: pr nth_append)
  qed
  have c: "terminalSessions ?s' (closure_sessionId (procs ?s' ! q)) = Some q"
    if "q < length (procs ?s')" "\<not> exited (procs ?s' ! q)" for q
  proof (cases "q = ?n")
    case True
    then show ?thesis by (simp add: pr reg spawn_def)
  next
    case False
    with that have q: "q < ?n" "\<not> exited (procs s ! q)" by (auto simp: pr nth_append)
    with assms have old: "terminalSessions s (closure_sessionId (procs s ! q)) = Some q"
      unfolding wf_def by blast
    with None have "closure_sessionId (procs s ! q) \<noteq> sid" by auto
    with old q show ?thesis by (simp add: pr reg nth_append)
  qed
  show ?thesis unfolding wf_def using hp b c by blast
qed

lemma req_on_close_proj [simp]:
  "terminalSessions (req_on_close r s) = terminalSessions s"
  "procs (req_on_close r s) = procs s"
  "conns (req_on_close r s) = conns s"
  "map pty (heap (req_on_close r s)) = map pty (heap s)"
  by (simp_all add: req_on_close_def map_update_at_same split: option.splits)

lemma client_disconnect_proj [simp]:
  "terminalSessions (client_disconnect r s) = terminalSessions s"
  "procs (client_disconnect r s) = procs s"
  "map pty (heap (client_disconnect r s)) = map pty (heap s)"
  by (simp_all add: client_disconnect_def)

lemma pty_onData_proj [simp]:
  "terminalSessions (pty_onData p d s) = terminalSessions s"
  "procs (pty_onData p d s) = procs s"
  "heap (pty_onData p d s) = heap s"
  by (simp_all add: pty_onData_def split: option.splits)

lemma pty_onExit_proj:
  "terminalSessions (pty_onExit p c g s) =
     (case deref (procs s) p of None \<Rightarrow> terminalSessions s
      | Some pr \<Rightarrow> (terminalSessions s)(closure_sessionId pr := None))"
  "procs (pty_onExit p c g s) = procs s"
  "heap (pty_onExit p c g s) = heap s"
  by (simp_all add: pty_onExit_def Let_def split: option.splits)

lemma prompt_timeout_proj [simp]:
  "terminalSessions (prompt_timeout p s) = terminalSessions s"
  "heap (prompt_timeout p s) = heap s"
  "conns (prompt_timeout p s) = conns s"
  "map closure_sessionId (procs (prompt_timeout p s)) = map closure_sessionId (procs s)"
  "map exited (procs (prompt_timeout p s)) = map exited (procs s)"
  by (simp_all add: prompt_timeout_def map_update_at_same)

lemma post_input_proj [simp]:
  "terminalSessions (snd (post_input sid b t s)) = terminalSessions s"
  "heap (snd (post_input sid b t s)) = heap s"
  "conns (snd (post_input sid b t s)) = conns s"
  "map closure_sessionId (procs (snd (post_input sid b t s))) = map closure_sessionId (procs s)"
  "map exited (procs (snd (post_input sid b t s))) = map exited (procs s)"
  by (simp_all add: post_input_def map_update_at_same split: option.splits)

lemma post_resize_proj [simp]:
  "terminalSessions (snd (post_resize sid b t s)) = terminalSessions s"
  "heap (snd (post_resize sid b t s)) = heap s"
  "conns (snd (post_resize sid b t s)) = conns s"
  "map closure_sessionId (procs (snd (post_resize sid b t s))) = map closure_sessionId (procs s)"
  "map exited (procs (snd (post_resize sid b t s))) = map exited (procs s)"
  by (simp_all add: post_resize_def map_update_at_same split: option.splits)

lemma exit_state:
  fixes c :: int and g :: "int option"
  assumes "p < length (procs s)"
  defines "s' \<equiv> pty_onExit p c g (s\<lparr>procs := update_at p (\<lambda>pr. pr\<lparr>exited := True\<rparr>) (procs s)\<rparr>)"
  shows "terminalSessions s' = (terminalSessions s)(closure_sessionId (procs s ! p) := None)"
    and "procs s' = (procs s)[p := (procs s ! p)\<lparr>exited := True\<rparr>]"
    and "heap s' = heap s"
  using assms(1) unfolding s'_def
  by (simp_all add: pty_onExit_proj deref_def update_at_def)

lemma wf_exit:
  assumes "wf s" and "p < length (procs s)" and "\<not> exited (procs s ! p)"
  shows "wf (pty_onExit p c g (s\<lparr>procs := update_at p (\<lambda>pr. pr\<lparr>exited := True\<rparr>) (procs s)\<rparr>))"
proof -
  let ?s' = "pty_onExit p c g (s\<lparr>procs := update_at p (\<lambda>pr. pr\<lparr>exited := True\<rparr>) (procs s)\<rparr>)"
  let ?sid = "closure_sessionId (procs s ! p)"
  note st = exit_state [OF assms(2), of c g]
  have reg_p: "terminalSessions s ?sid = Some p"
    using assms unfolding wf_def by blast
  have a: "map pty (heap ?s') = [0..<length (procs ?s')]"
    using assms(1) by (simp add: st wf_def)
  have b: "a < length (procs ?s') \<and> closure_sessionId (procs ?s' ! a) = sid \<and> \<not> exited (procs ?s' ! a)"
    if "terminalSessions ?s' sid = Some a" for sid a
  proof -
    from that have ne: "sid \<noteq> ?sid" and old: "terminalSessions s sid = Some a"
      by (auto simp: st split: if_splits)
    from old assms(1) have *: "a < length (procs s)" "closure_sessionId (procs s ! a) = sid"
      "\<not> exited (procs s ! a)" unfolding wf_def by blast+
    with ne have "a \<noteq> p" by auto
    with * show ?thesis by (simp add: st)
  qed
  have c: "terminalSessions ?s' (closure_sessionId (procs ?s' ! q)) = Some q"
    if "q < length (procs ?s')" "\<not> exited (procs ?s' ! q)" for q
  proof -
    from that have ql: "q < length (procs s)" by (simp add: st)
    from that ql have qp: "q \<noteq> p" by (auto simp: st)
    from that ql qp have q: "q < length (procs s)" "q \<noteq> p" "\<not> exited (procs s ! q)"
      by (simp_all add: st)
    then have old: "terminalSessions s (closure_sessionId (procs s ! q)) = Some q"
      using assms(1) unfolding wf_def by blast
    with reg_p q(2) have "closure_sessionId (procs s ! q) \<noteq> ?sid" by auto
    with old q show ?thesis by (simp add: st)
  qed
  show ?thesis unfolding wf_def using a b c by blast
qed

lemma enabled_ProcExit: "enabled (ProcExit p c g) s \<longleftrightarrow> p < length (procs s) \<and> \<not> exited (procs s ! p)"
  by (simp add: deref_def)

lemma wf_step: "wf s \<Longrightarrow> enabled e s \<Longrightarrow> wf (step e s)"
proof (cases e)
  case (Attach sid)
  assume "wf s" then show ?thesis using Attach by (simp add: wf_get_terminal)
next
  case (ProcExit p c g)
  assume "wf s" "enabled e s"
  then show ?thesis unfolding ProcExit by (auto simp: wf_exit deref_def split: if_splits)
next
  case (Disconnect r)
  assume "wf s" then show ?thesis unfolding Disconnect by (rule wf_cong) simp_all
next
  case (Data p d)
  assume "wf s" then show ?thesis unfolding Data by (rule wf_cong) simp_all
next
  case (PromptTimer p)
  assume "wf s" then show ?thesis unfolding PromptTimer by (rule wf_cong) simp_all
next
  case (Input sid b t)
  assume "wf s" then show ?thesis unfolding Input by (rule wf_cong) simp_all
next
  case (Resize sid b t)
  assume "wf s" then show ?thesis unfolding Resize by (rule wf_cong) simp_all
qed

lemma wf_exec: "wf s \<Longrightarrow> wf (exec es s)"
  by (induction es arbitrary: s) (simp_all add: wf_step)

lemma registry_step:
  assumes "wf s" and "enabled e s" and "terminalSessions s sid = Some a"
  shows "terminalSessions (step e s) sid = Some a \<or> (\<exists>c g. e = ProcExit a c g)"
proof (cases e)
  case (Attach sid')
  then show ?thesis using assms(3) by (auto simp: get_terminal_sessions split: option.splits)
next
  case (ProcExit p c g)
  with assms(2) have p: "p < length (procs s)" "\<not> exited (procs s ! p)"
    by (auto simp: deref_def split: if_splits)
  show ?thesis
  proof (cases "closure_sessionId (procs s ! p) = sid")
    case True
    with assms(1) p have "terminalSessions s sid = Some p" unfolding wf_def by blast
    with assms(3) ProcExit show ?thesis by simp
  next
    case False
    then show ?thesis using assms(3) ProcExit exit_state(1) [OF p(1), of c g] by simp
  qed
qed (simp_all add: assms(3))

lemmas server_defs = get_terminal_def init_server_def client_disconnect_def req_on_close_def
  pty_onExit_def pty_onData_def live_def deref_def update_at_def spawn_def Let_def res_write_def
  res_end_def post_input_def post_resize_def get_session_def prompt_timeout_def

lemma step_spawned:
  "map closure_sessionId (procs (step e s)) =
     (case e of
        Attach sid \<Rightarrow>
          (if terminalSessions s sid = None then map closure_sessionId (procs s) @ [sid]
           else map closure_sessionId (procs s))
      | _ \<Rightarrow> map closure_sessionId (procs s))"
proof (cases e)
  case (Attach sid)
  then show ?thesis by (simp add: get_terminal_procs spawn_def split: option.splits)
next
  case (ProcExit p c g)
  then show ?thesis by (simp add: pty_onExit_proj map_update_at_same)
qed simp_all

lemma wf_get_session:
  assumes "wf s" and "terminalSessions s sid = Some a"
  shows "get_session s sid = Some (heap s ! a)" and "pty (heap s ! a) = a"
proof -
  from assms have a: "a < length (procs s)" unfolding wf_def by blast
  from assms(1) have m: "map pty (heap s) = [0..<length (procs s)]" unfolding wf_def by blast
  then have l: "length (heap s) = length (procs s)"
    by (metis length_map length_upt minus_nat.diff_0)
  have "map pty (heap s) ! a = [0..<length (procs s)] ! a" by (simp only: m)
  with a l show "pty (heap s ! a) = a" by simp
  from a l assms(2) show "get_session s sid = Some (heap s ! a)"
    by (simp add: get_session_def deref_def)
qed

lemma registered_exec:
  assumes "wf s" and "terminalSessions s sid = Some a" and "\<forall>c g. ProcExit a c g \<notin> set es"
  shows "terminalSessions (exec es s) sid = Some a \<and>
         count_list (map closure_sessionId (procs (exec es s))) sid =
         count_list (map closure_sessionId (procs s)) sid"
  using assms
proof (induction es arbitrary: s)
  case Nil
  then show ?case by simp
next
  case (Cons e es)
  show ?case
  proof (cases "enabled e s")
    case False
    with Cons show ?thesis by simp
  next
    case True
    from Cons.prems(3) have ne: "\<forall>c g. e \<noteq> ProcExit a c g" and rest: "\<forall>c g. ProcExit a c g \<notin> set es"
      by auto
    from registry_step [OF Cons.prems(1) True Cons.prems(2)] ne
    have reg: "terminalSessions (step e s) sid = Some a" by blast
    have cnt: "count_list (map closure_sessionId (procs (step e s))) sid =
               count_list (map closure_sessionId (procs s)) sid"
      using Cons.prems(2) by (auto simp: step_spawned split: event.splits)
    from Cons.IH [OF wf_step [OF Cons.prems(1) True] reg rest] cnt True
    show ?thesis by simp
  qed
qed

section \<open>Attaching\<close>

text \<open>
  Claim C1. The first attach of a session id (the id is not registered) spawns exactly one
  process and registers a session that owns it. From then on, whatever the server does
  short of the exit of that process, and however many attaches of the same id it handles,
  the id stays bound to that same process and no further process is spawned for the id;
  an attach of the registered id leaves the processes and the registry as they are and
  only sets the \<^verbatim>\<open>res\<close> field of the existing session to the new response.
\<close>

theorem attach_spawns_once:
  assumes "terminalSessions (exec es0 init_server) sessionId = None"
    and "\<forall>c g. ProcExit (length (procs (exec es0 init_server))) c g \<notin> set es"
  shows "let s = exec es0 init_server; s1 = get_terminal sessionId s;
             s2 = exec es s1; s3 = get_terminal sessionId s2
         in procs s1 = procs s @ [spawn sessionId (length (conns s))] \<and>
            map_option pty (get_session s1 sessionId) = Some (length (procs s)) \<and>
            map_option pty (get_session s2 sessionId) = Some (length (procs s)) \<and>
            count_list (map closure_sessionId (procs s2)) sessionId =
              count_list (map closure_sessionId (procs s1)) sessionId \<and>
            procs s3 = procs s2 \<and> terminalSessions s3 = terminalSessions s2 \<and>
            map pty (heap s3) = map pty (heap s2) \<and>
            map_option res (get_session s3 sessionId) = Some (Some (length (conns s2)))"
proof -
  define s where "s = exec es0 init_server"
  define s1 where "s1 = get_terminal sessionId s"
  define s2 where "s2 = exec es s1"
  define s3 where "s3 = get_terminal sessionId s2"
  let ?p = "length (procs s)"
  have wf: "wf s" unfolding s_def by (rule wf_exec [OF wf_init])
  then have wf1: "wf s1" unfolding s1_def by (rule wf_get_terminal)
  have none: "terminalSessions s sessionId = None" using assms(1) by (simp add: s_def)
  have lh: "length (heap s) = ?p"
    using wf unfolding wf_def by (metis length_map length_upt minus_nat.diff_0)
  have p1: "procs s1 = procs s @ [spawn sessionId (length (conns s))]"
    by (simp add: s1_def get_terminal_procs none)
  have reg1: "terminalSessions s1 sessionId = Some ?p"
    by (simp add: s1_def get_terminal_sessions none lh)
  have noexit: "\<forall>c g. ProcExit ?p c g \<notin> set es" using assms(2) by (simp add: s_def)
  from registered_exec [OF wf1 reg1 noexit]
  have reg2: "terminalSessions s2 sessionId = Some ?p"
    and cnt: "count_list (map closure_sessionId (procs s2)) sessionId =
              count_list (map closure_sessionId (procs s1)) sessionId"
    by (simp_all add: s2_def)
  have wf2: "wf s2" unfolding s2_def by (rule wf_exec [OF wf1])
  have g1: "map_option pty (get_session s1 sessionId) = Some ?p"
    using wf_get_session [OF wf1 reg1] by simp
  have g2: "map_option pty (get_session s2 sessionId) = Some ?p"
    using wf_get_session [OF wf2 reg2] by simp
  have p3: "procs s3 = procs s2" by (simp add: s3_def get_terminal_procs reg2)
  have r3: "terminalSessions s3 = terminalSessions s2"
    by (simp add: s3_def get_terminal_sessions reg2)
  have h3: "heap s3 = update_at ?p (\<lambda>obj. obj\<lparr>res := Some (length (conns s2))\<rparr>) (heap s2)"
    by (simp add: s3_def get_terminal_heap reg2)
  then have m3: "map pty (heap s3) = map pty (heap s2)" by (simp add: map_update_at_same)
  have "?p < length (heap s2)"
    using wf2 reg2 unfolding wf_def by (metis length_map length_upt minus_nat.diff_0)
  then have g3: "map_option res (get_session s3 sessionId) = Some (Some (length (conns s2)))"
    by (simp add: get_session_def r3 reg2 h3 deref_def nth_update_at)
  show ?thesis
    using p1 g1 g2 cnt p3 r3 m3 g3 unfolding s_def s1_def s2_def s3_def Let_def by blast
qed

theorem attach_spawns_once_witness:
  "terminalSessions (exec [] init_server) ''x'' = None \<and>
   (\<forall>c g. ProcExit (length (procs (exec [] init_server))) c g
       \<notin> set [Attach ''x'', Disconnect 0, Attach ''x'', Data 0 ''a'']) \<and>
   (let s = exec [] init_server; s1 = get_terminal ''x'' s;
        s2 = exec [Attach ''x'', Disconnect 0, Attach ''x'', Data 0 ''a''] s1
    in length (procs s1) = 1 \<and> map_option pty (get_session s2 ''x'') = Some 0 \<and>
       count_list (map closure_sessionId (procs s2)) ''x'' = 1)"
proof -
  have h1: "terminalSessions (exec [] init_server) ''x'' = None"
    by (simp add: init_server_def)
  have h2: "\<forall>c g. ProcExit (length (procs (exec [] init_server))) c g
       \<notin> set [Attach ''x'', Disconnect 0, Attach ''x'', Data 0 ''a'']"
    by simp
  from attach_spawns_once [OF h1 h2] h1 h2 show ?thesis
    by (simp add: Let_def init_server_def spawn_def)
qed

section \<open>The input route\<close>

lemma list_all_update_at:
  "list_all P xs \<Longrightarrow> (\<And>x. P x \<Longrightarrow> P (f x)) \<Longrightarrow> list_all P (update_at i f xs)"
  unfolding update_at_def list_all_iff
  by (auto dest: subsetD [OF set_update_subset_insert] simp: nth_mem)

lemma writes_truthy_step: "writes_truthy s \<Longrightarrow> writes_truthy (step e s)"
proof (cases e)
  case (Attach sid)
  assume "writes_truthy s"
  then show ?thesis
    by (simp add: Attach writes_truthy_def get_terminal_procs spawn_def split: option.splits)
next
  case (ProcExit p c g)
  assume "writes_truthy s"
  then show ?thesis
    by (simp add: ProcExit writes_truthy_def pty_onExit_proj list_all_update_at)
next
  case (PromptTimer p)
  assume "writes_truthy s"
  then show ?thesis
    by (simp add: PromptTimer writes_truthy_def prompt_timeout_def list_all_update_at)
next
  case (Input sid b t)
  assume "writes_truthy s"
  then show ?thesis
    by (simp add: Input writes_truthy_def post_input_def list_all_update_at split: option.splits)
next
  case (Resize sid b t)
  assume "writes_truthy s"
  then show ?thesis
    by (simp add: Resize writes_truthy_def post_resize_def list_all_update_at split: option.splits)
qed (simp_all add: writes_truthy_def)

lemma writes_truthy_exec: "writes_truthy s \<Longrightarrow> writes_truthy (exec es s)"
  by (induction es arbitrary: s) (simp_all add: writes_truthy_step)

text \<open>
  Claim C10. An input request whose \<^verbatim>\<open>input\<close> field is the empty string is answered
  like one that has no such field: with 400 and without any change of the state, so
  nothing is forwarded; and in no run of the server does the empty string appear among
  the values written to a process.
\<close>

theorem empty_input_rejected:
  "(b ''input'' = Some (JStr []) \<or> b ''input'' = None \<longrightarrow>
      post_input sessionId b throws s = (Reply 400 (ErrorMsg ''Input is required''), s)) \<and>
   (\<forall>pr \<in> set (procs (exec es init_server)). JStr [] \<notin> set (pty_writes pr))"
proof -
  have "writes_truthy (exec es init_server)"
    by (rule writes_truthy_exec) (simp add: writes_truthy_def init_server_def)
  then have "\<forall>pr \<in> set (procs (exec es init_server)). \<forall>v \<in> set (pty_writes pr). truthy v"
    by (simp add: writes_truthy_def list_all_iff)
  then have "\<forall>pr \<in> set (procs (exec es init_server)). JStr [] \<notin> set (pty_writes pr)"
    by fastforce
  then show ?thesis by (simp add: post_input_def)
qed

theorem empty_input_rejected_witness:
  "[''input'' \<mapsto> JStr []] ''input'' = Some (JStr []) \<and>
   post_input ''x'' [''input'' \<mapsto> JStr []] False (get_terminal ''x'' init_server) =
     (Reply 400 (ErrorMsg ''Input is required''), get_terminal ''x'' init_server) \<and>
   map pty_writes
     (procs (exec [Attach ''x'', Input ''x'' [''input'' \<mapsto> JStr []] False,
                   Input ''x'' [''input'' \<mapsto> JStr ''ls''] False] init_server)) =
     [[JStr ''ls'']]"
  using empty_input_rejected [of "[''input'' \<mapsto> JStr []]" "''x''" False
      "get_terminal ''x'' init_server" "[Attach ''x'', Input ''x'' [''input'' \<mapsto> JStr []] False,
                   Input ''x'' [''input'' \<mapsto> JStr ''ls''] False]"]
  by (simp add: server_defs)

lemma reachable_session:
  assumes "terminalSessions (exec es init_server) sid = Some a"
  shows "get_session (exec es init_server) sid = Some (heap (exec es init_server) ! a)"
    and "pty (heap (exec es init_server) ! a) = a"
  using wf_get_session [OF wf_exec [OF wf_init] assms] by simp_all

lemma reachable_unregistered:
  "terminalSessions s sid = None \<Longrightarrow> get_session s sid = None"
  by (simp add: get_session_def)

text \<open>
  Claim C7 says that the answer is 400 exactly when the \<^verbatim>\<open>input\<close> field is missing.
  The handler tests \<^verbatim>\<open>!input\<close>, so a field that is present and empty is answered with
  400 as well.
\<close>

theorem input_400_counterexample:
  "[''input'' \<mapsto> JStr []] ''input'' \<noteq> None \<and>
   fst (post_input ''x'' [''input'' \<mapsto> JStr []] False (get_terminal ''x'' init_server)) =
     Reply 400 (ErrorMsg ''Input is required'')"
  by (simp add: post_input_def)

text \<open>
  Claim C7, amended. In every state the server can reach: the answer is 400 exactly when
  the \<^verbatim>\<open>input\<close> field is missing or falsy; when it is truthy and the id is registered,
  the value is passed unchanged to \<^verbatim>\<open>write\<close> of the session's process and the answer is
  success, or 500 when the write throws; when it is truthy and the id is not registered
  the answer is 404 and nothing changes; every request is answered.
\<close>

theorem input_reply:
  "let s = exec es init_server in
     ((\<exists>m. fst (post_input sessionId b throws s) = Reply 400 m) \<longleftrightarrow>
        (\<forall>v. b ''input'' = Some v \<longrightarrow> \<not> truthy v)) \<and>
     (\<forall>v a. b ''input'' = Some v \<and> truthy v \<and> terminalSessions s sessionId = Some a \<longrightarrow>
        post_input sessionId b throws s =
          (if throws then (Reply 500 (ErrorMsg ''Failed to write to terminal''), s)
           else (Reply 200 Success,
                 s\<lparr>procs := update_at a (\<lambda>pr. pr\<lparr>pty_writes := pty_writes pr @ [v]\<rparr>)
                               (procs s)\<rparr>))) \<and>
     (\<forall>v. b ''input'' = Some v \<and> truthy v \<and> terminalSessions s sessionId = None \<longrightarrow>
        post_input sessionId b throws s =
          (Reply 404 (ErrorMsg ''Session not found. Please refresh the page.''), s)) \<and>
     (\<exists>status m. fst (post_input sessionId b throws s) = Reply status m)"
proof -
  define s where "s = exec es init_server"
  have A: "(\<exists>m. fst (post_input sessionId b throws s) = Reply 400 m) \<longleftrightarrow>
        (\<forall>v. b ''input'' = Some v \<longrightarrow> \<not> truthy v)"
    by (auto simp: post_input_def split: option.splits)
  have B: "post_input sessionId b throws s =
          (if throws then (Reply 500 (ErrorMsg ''Failed to write to terminal''), s)
           else (Reply 200 Success,
                 s\<lparr>procs := update_at a (\<lambda>pr. pr\<lparr>pty_writes := pty_writes pr @ [v]\<rparr>)
                               (procs s)\<rparr>))"
    if "b ''input'' = Some v" "truthy v" "terminalSessions s sessionId = Some a" for v a
    using that reachable_session [of es sessionId a]
    by (simp add: post_input_def s_def)
  have C: "post_input sessionId b throws s =
          (Reply 404 (ErrorMsg ''Session not found. Please refresh the page.''), s)"
    if "b ''input'' = Some v" "truthy v" "terminalSessions s sessionId = None" for v
    using that by (simp add: post_input_def reachable_unregistered)
  have D: "\<exists>status m. fst (post_input sessionId b throws s) = Reply status m"
    by (simp add: post_input_def split: option.splits)
  show ?thesis unfolding Let_def s_def [symmetric] using A B C D by blast
qed

theorem input_reply_witness:
  "let s = exec [Attach ''x''] init_server; b = [''input'' \<mapsto> JStr ''ls''] in
     b ''input'' = Some (JStr ''ls'') \<and> truthy (JStr ''ls'') \<and>
     terminalSessions s ''x'' = Some 0 \<and> terminalSessions s ''y'' = None \<and>
     map pty_writes (procs (snd (post_input ''x'' b False s))) = [[JStr ''ls'']] \<and>
     fst (post_input ''x'' b False s) = Reply 200 Success \<and>
     fst (post_input ''y'' b False s) =
       Reply 404 (ErrorMsg ''Session not found. Please refresh the page.'') \<and>
     fst (post_input ''x'' Map.empty False s) = Reply 400 (ErrorMsg ''Input is required'')"
  using input_reply [of "[Attach ''x'']" "''x''" "[''input'' \<mapsto> JStr ''ls'']" False]
    input_reply [of "[Attach ''x'']" "''y''" "[''input'' \<mapsto> JStr ''ls'']" False]
    input_reply [of "[Attach ''x'']" "''x''" Map.empty False]
  by (simp add: Let_def get_terminal_def init_server_def update_at_def spawn_def post_input_def)

section \<open>The resize route\<close>

text \<open>
  Claim C6 says that the server forwards a resize only after validating
  \<open>cols \<ge> 1\<close> and \<open>rows \<ge> 1\<close>. The handler has no such check: on a resize to 0 by 0
  for a registered id it calls \<^verbatim>\<open>resize\<close> of the process with these values. The
  process library rejects a size that is not positive by throwing, so the geometry stays
  80 by 24 and the handler itself gives no answer.
\<close>

theorem resize_unvalidated_counterexample:
  "let s = get_terminal ''x'' init_server;
       b = [''cols'' \<mapsto> JNum 0, ''rows'' \<mapsto> JNum 0]
   in terminalSessions s ''x'' \<noteq> None \<and>
      map pty_resizes (procs s) = [[]] \<and>
      map pty_resizes (procs (snd (post_resize ''x'' b True s))) =
        [[(Some (JNum 0), Some (JNum 0))]] \<and>
      map geometry (procs (snd (post_resize ''x'' b True s))) =
        [(Some (JNum 80), Some (JNum 24))] \<and>
      fst (post_resize ''x'' b True s) = Uncaught"
  by (simp add: get_terminal_def init_server_def Let_def post_resize_def get_session_def
      deref_def update_at_def spawn_def)

text \<open>
  Claim C6, amended. In every state the server can reach, a resize for a registered id
  calls \<^verbatim>\<open>resize\<close> of the session's process with \<^verbatim>\<open>cols\<close> and \<^verbatim>\<open>rows\<close> of the body
  as they are, whatever their values and without any check of its own. When that call
  returns, the process has this geometry and the answer is success; when it throws, the
  geometry is unchanged and the handler gives no answer. A resize for an id that is not
  registered is answered with 404 and changes nothing.
\<close>

theorem resize_forwarded:
  "let s = exec es init_server in
     (\<forall>a. terminalSessions s sessionId = Some a \<longrightarrow>
        post_resize sessionId b throws s =
          (if throws
           then (Uncaught,
                 s\<lparr>procs := update_at a
                     (\<lambda>pr. pr\<lparr>pty_resizes := pty_resizes pr @ [(b ''cols'', b ''rows'')]\<rparr>)
                     (procs s)\<rparr>)
           else (Reply 200 Success,
                 s\<lparr>procs := update_at a
                     (\<lambda>pr. pr\<lparr>pty_resizes := pty_resizes pr @ [(b ''cols'', b ''rows'')],
                            geometry := (b ''cols'', b ''rows'')\<rparr>)
                     (procs s)\<rparr>))) \<and>
     (terminalSessions s sessionId = None \<longrightarrow>
        post_resize sessionId b throws s = (Reply 404 (ErrorMsg ''Session not found''), s))"
proof -
  define s where "s = exec es init_server"
  have A: "post_resize sessionId b throws s =
          (if throws
           then (Uncaught,
                 s\<lparr>procs := update_at a
                     (\<lambda>pr. pr\<lparr>pty_resizes := pty_resizes pr @ [(b ''cols'', b ''rows'')]\<rparr>)
                     (procs s)\<rparr>)
           else (Reply 200 Success,
                 s\<lparr>procs := update_at a
                     (\<lambda>pr. pr\<lparr>pty_resizes := pty_resizes pr @ [(b ''cols'', b ''rows'')],
                            geometry := (b ''cols'', b ''rows'')\<rparr>)
                     (procs s)\<rparr>))"
    if "terminalSessions s sessionId = Some a" for a
    using that reachable_session [of es sessionId a] by (simp add: post_resize_def s_def)
  have B: "post_resize sessionId b throws s = (Reply 404 (ErrorMsg ''Session not found''), s)"
    if "terminalSessions s sessionId = None"
    using that by (simp add: post_resize_def reachable_unregistered)
  show ?thesis unfolding Let_def s_def [symmetric] using A B by blast
qed

theorem resize_forwarded_witness:
  "let s = exec [Attach ''x''] init_server;
       b = [''cols'' \<mapsto> JNum 120, ''rows'' \<mapsto> JNum 40];
       z = [''cols'' \<mapsto> JNum 0, ''rows'' \<mapsto> JNum 0] in
     terminalSessions s ''x'' = Some 0 \<and> terminalSessions s ''y'' = None \<and>
     fst (post_resize ''x'' b False s) = Reply 200 Success \<and>
     map pty_resizes (procs (snd (post_resize ''x'' b False s))) =
       [[(Some (JNum 120), Some (JNum 40))]] \<and>
     map geometry (procs (snd (post_resize ''x'' b False s))) =
       [(Some (JNum 120), Some (JNum 40))] \<and>
     fst (post_resize ''x'' z True s) = Uncaught \<and>
     map pty_resizes (procs (snd (post_resize ''x'' z True s))) =
       [[(Some (JNum 0), Some (JNum 0))]] \<and>
     map geometry (procs (snd (post_resize ''x'' z True s))) =
       [(Some (JNum 80), Some (JNum 24))] \<and>
     post_resize ''y'' b False s = (Reply 404 (ErrorMsg ''Session not found''), s)"
  using resize_forwarded [of "[Attach ''x'']" "''x''" "[''cols'' \<mapsto> JNum 120, ''rows'' \<mapsto> JNum 40]" False]
    resize_forwarded [of "[Attach ''x'']" "''x''" "[''cols'' \<mapsto> JNum 0, ''rows'' \<mapsto> JNum 0]" True]
    resize_forwarded [of "[Attach ''x'']" "''y''" "[''cols'' \<mapsto> JNum 120, ''rows'' \<mapsto> JNum 40]" False]
  by (simp add: Let_def get_terminal_def init_server_def update_at_def spawn_def)

section \<open>Detaching\<close>

lemma client_disconnect_heap:
  "heap (client_disconnect r s) =
     (case deref (conns s) r of
        None \<Rightarrow> heap s
      | Some c \<Rightarrow>
          (case session_ref c of
             None \<Rightarrow> heap s
           | Some a \<Rightarrow> update_at a (\<lambda>obj. obj\<lparr>res := None\<rparr>) (heap s)))"
  by (simp add: client_disconnect_def req_on_close_def deref_def nth_update_at
        split: option.splits)

text \<open>
  Claim C2. When the client of a response goes away, the registry and the processes stay
  as they are; the only change to the session objects is that the \<^verbatim>\<open>res\<close> field of
  the session the request captured becomes \<^verbatim>\<open>null\<close>. In every state the server can
  reach, an event that removes a registered id from the registry is the exit of the
  process that the session of this id owns.
\<close>

theorem detach_keeps_session:
  "let s = exec es init_server; s' = client_disconnect r s in
     terminalSessions s' = terminalSessions s \<and> procs s' = procs s \<and>
     heap s' =
       (case deref (conns s) r of
          None \<Rightarrow> heap s
        | Some c \<Rightarrow>
            (case session_ref c of
               None \<Rightarrow> heap s
             | Some a \<Rightarrow> update_at a (\<lambda>obj. obj\<lparr>res := None\<rparr>) (heap s))) \<and>
     map pty (heap s') = map pty (heap s) \<and>
     (\<forall>e sid a. enabled e s \<and> terminalSessions s sid = Some a \<and>
          terminalSessions (step e s) sid = None \<longrightarrow>
        (\<exists>obj c g. get_session s sid = Some obj \<and> e = ProcExit (pty obj) c g))"
proof -
  define s where "s = exec es init_server"
  have wf: "wf s" unfolding s_def by (rule wf_exec [OF wf_init])
  have "\<exists>obj c g. get_session s sid = Some obj \<and> e = ProcExit (pty obj) c g"
    if "enabled e s" "terminalSessions s sid = Some a" "terminalSessions (step e s) sid = None"
    for e sid a
  proof -
    from registry_step [OF wf that(1,2)] that(3) obtain c g where "e = ProcExit a c g"
      by auto
    with wf_get_session [OF wf that(2)] show ?thesis by simp
  qed
  then have E: "\<forall>e sid a. enabled e s \<and> terminalSessions s sid = Some a \<and>
          terminalSessions (step e s) sid = None \<longrightarrow>
        (\<exists>obj c g. get_session s sid = Some obj \<and> e = ProcExit (pty obj) c g)"
    by blast
  show ?thesis
    unfolding Let_def s_def [symmetric]
    using E client_disconnect_heap [of r s] client_disconnect_proj [of r s] by simp
qed

theorem detach_keeps_session_witness:
  "let s = exec [Attach ''x''] init_server; s' = client_disconnect 0 s in
     terminalSessions s' ''x'' = Some 0 \<and> map exited (procs s') = [False] \<and>
     map res (heap s) = [Some 0] \<and> map res (heap s') = [None] \<and>
     enabled (ProcExit 0 0 None) s \<and> terminalSessions s ''x'' = Some 0 \<and>
     terminalSessions (step (ProcExit 0 0 None) s) ''x'' = None \<and>
     get_session s ''x'' = Some \<lparr>pty = 0, res = Some 0\<rparr>"
  using detach_keeps_session [of "[Attach ''x'']" 0]
  by (simp add: server_defs)

section \<open>Output and exit frames after a reattach\<close>

text \<open>
  Claim C3 (evaluation). Two attaches of one id with the first response still open: the
  session's \<^verbatim>\<open>res\<close> is the second response and it is live, but the chunk is written
  to the first response, which \<^verbatim>\<open>onData\<close> closed over.
\<close>

theorem output_goes_to_first_response:
  "let s0 = exec [Attach ''x'', Attach ''x''] init_server; s = exec [Data 0 ''hi''] s0 in
     map res (heap s0) = [Some 1] \<and> live s0 1 \<and>
     map written (conns s) = [[FConnected, FOutput ''hi''], [FConnected]]"
  by (simp add: server_defs)

text \<open>
  Claim C5 (evaluation). The first response is closed, the id is attached again and the
  process exits: the session's \<^verbatim>\<open>res\<close> is the second response and it is live, but
  \<^verbatim>\<open>onExit\<close> only looks at the first response, so no exit frame is written and the
  second response is not ended; the id leaves the registry.
\<close>

theorem exit_frame_missed_after_reattach:
  "let s0 = exec [Attach ''x'', Disconnect 0, Attach ''x''] init_server;
       s = exec [ProcExit 0 0 None] s0 in
     map res (heap s0) = [Some 1] \<and> live s0 1 \<and>
     map written (conns s) = [[FConnected], [FConnected]] \<and>
     map ended (conns s) = [False, False] \<and> terminalSessions s ''x'' = None"
  by (simp add: server_defs)

section \<open>The input queue of the client\<close>

lemmas input_defs = processInputQueue_def request_settled_def animation_frame_def
  terminal_onData_def suppressed_def INPUT_DEBOUNCE_MS_def init_input_def Let_def

lemma input_inv_init: "input_inv init_input"
  by (simp add: input_inv_def init_input_def)

lemma input_inv_step:
  assumes "input_inv s" and "input_enabled e s"
  shows "input_inv (input_step e s)"
proof (cases e)
  case (Key data now)
  with assms(1) show ?thesis
    by (cases "inputQueue s")
       (auto simp: input_inv_def terminal_onData_def processInputQueue_def Let_def)
next
  case Settled
  with assms show ?thesis
    by (auto simp: input_inv_def request_settled_def Let_def split: if_splits)
next
  case Frame
  with assms show ?thesis
    by (cases "inputQueue s")
       (auto simp: input_inv_def animation_frame_def processInputQueue_def split: if_splits)
qed

lemma input_inv_exec: "input_inv s \<Longrightarrow> input_inv (input_exec es s)"
  by (induction es arbitrary: s) (simp_all add: input_inv_step)

lemma processInputQueue_conserves:
  "requests (processInputQueue s) @ inputQueue (processInputQueue s) = requests s @ inputQueue s"
  by (simp add: processInputQueue_def split: list.splits)

lemma input_step_conserves:
  "requests (input_step e s) @ inputQueue (input_step e s) =
     requests s @ inputQueue s @ pushed e s"
proof (cases e)
  case (Key data now)
  then show ?thesis
    by (simp add: terminal_onData_def Let_def processInputQueue_conserves)
next
  case Settled
  then show ?thesis by (simp add: request_settled_def Let_def)
next
  case Frame
  then show ?thesis
    using processInputQueue_conserves [of "s\<lparr>frame_callbacks := frame_callbacks s - 1\<rparr>"]
    by (simp add: animation_frame_def)
qed

lemma input_exec_conserves:
  "requests (input_exec es s) @ inputQueue (input_exec es s) =
     requests s @ inputQueue s @ enqueued es s"
proof (induction es arbitrary: s)
  case Nil
  show ?case by simp
next
  case (Cons e es)
  show ?case
    using Cons.IH [of "input_step e s"] Cons.IH [of s] input_step_conserves [of e s]
    by (simp del: append_assoc add: append_assoc [symmetric])
qed

lemma input_step_sends:
  assumes "input_inv s"
  shows "requests (input_step e s) = requests s \<or>
         (in_flight s = 0 \<and> in_flight (input_step e s) = 1 \<and>
          (\<exists>k. requests (input_step e s) = requests s @ [k]))"
proof (cases e)
  case (Key data now)
  with assms show ?thesis
    by (cases "inputQueue s")
       (auto simp: input_inv_def terminal_onData_def processInputQueue_def Let_def
          split: if_splits)
next
  case Settled
  then show ?thesis by (simp add: request_settled_def Let_def)
next
  case Frame
  with assms show ?thesis
    by (cases "inputQueue s")
       (auto simp: input_inv_def animation_frame_def processInputQueue_def split: if_splits)
qed

lemma drain_round:
  assumes "input_inv s"
  shows "length (inputQueue (input_exec [Settled, Frame] s)) = length (inputQueue s) - 1"
proof (cases "inputQueue s")
  case Nil
  with assms show ?thesis
    by (auto simp: input_inv_def request_settled_def animation_frame_def processInputQueue_def
          Let_def)
next
  case (Cons k rest)
  with assms show ?thesis
    by (auto simp: input_inv_def request_settled_def animation_frame_def processInputQueue_def
          Let_def split: if_splits)
qed

lemma drain_length:
  "input_inv s \<Longrightarrow> length (inputQueue (input_exec (drain n) s)) = length (inputQueue s) - n"
proof (induction n arbitrary: s)
  case 0
  show ?case by simp
next
  case (Suc n)
  let ?s' = "input_exec [Settled, Frame] s"
  have inv': "input_inv ?s'" by (rule input_inv_exec [OF Suc.prems])
  have "input_exec (drain (Suc n)) s = input_exec (drain n) ?s'" by simp
  then show ?case
    using Suc.IH [OF inv'] drain_round [OF Suc.prems] by (simp del: input_exec.simps)
qed

lemma enqueued_drain: "enqueued (drain n) s = []"
  by (induction n arbitrary: s) simp_all

lemma drain_sends_all:
  assumes "input_inv s"
  shows "requests (input_exec (drain (length (inputQueue s))) s) = requests s @ inputQueue s"
proof -
  let ?s' = "input_exec (drain (length (inputQueue s))) s"
  have "inputQueue ?s' = []" using drain_length [OF assms, of "length (inputQueue s)"] by simp
  with input_exec_conserves [of "drain (length (inputQueue s))" s] show ?thesis
    by (simp add: enqueued_drain)
qed

text \<open>
  Claim C4. In every state the page can reach from its start, whatever keystrokes,
  settlements and animation frames occurred: at most one input request is outstanding;
  the inputs already sent, followed by the queue, are exactly the keystrokes pushed on the
  queue, in the order of their arrival; a step sends at most one further input, taken from
  the head of the queue, and only when no request is outstanding; and letting each
  outstanding request settle and a frame run, once per queue entry, sends the whole queue
  in that order.
\<close>

theorem input_fifo_one_in_flight:
  "let s = input_exec es init_input in
     in_flight s \<le> 1 \<and>
     requests s @ inputQueue s = enqueued es init_input \<and>
     (\<forall>e. requests (input_step e s) = requests s \<or>
          (in_flight s = 0 \<and> in_flight (input_step e s) = 1 \<and>
           (\<exists>k. requests (input_step e s) = requests s @ [k]))) \<and>
     requests (input_exec (drain (length (inputQueue s))) s) = enqueued es init_input"
proof -
  define s where "s = input_exec es init_input"
  have inv: "input_inv s" unfolding s_def by (rule input_inv_exec [OF input_inv_init])
  have a: "in_flight s \<le> 1" using inv by (simp add: input_inv_def)
  have b: "requests s @ inputQueue s = enqueued es init_input"
    using input_exec_conserves [of es init_input] by (simp add: s_def init_input_def)
  have c: "\<forall>e. requests (input_step e s) = requests s \<or>
          (in_flight s = 0 \<and> in_flight (input_step e s) = 1 \<and>
           (\<exists>k. requests (input_step e s) = requests s @ [k]))"
    using input_step_sends [OF inv] by blast
  have d: "requests (input_exec (drain (length (inputQueue s))) s) = enqueued es init_input"
    using drain_sends_all [OF inv] b by simp
  show ?thesis unfolding Let_def s_def [symmetric] using a b c d by blast
qed

theorem input_fifo_one_in_flight_witness:
  "let s = input_exec [Key ''a'' 100, Key ''b'' 200, Key ''c'' 300] init_input in
     in_flight s = 1 \<and> requests s = [''a''] \<and> inputQueue s = [''b'', ''c''] \<and>
     enqueued [Key ''a'' 100, Key ''b'' 200, Key ''c'' 300] init_input = [''a'', ''b'', ''c''] \<and>
     requests (input_step (Key ''d'' 400) s) = requests s \<and>
     requests (input_exec (drain 2) s) = [''a'', ''b'', ''c'']"
  using input_fifo_one_in_flight [of "[Key ''a'' 100, Key ''b'' 200, Key ''c'' 300]"]
  by (simp add: input_defs eval_nat_numeral)

text \<open>
  Claim C8 (evaluation). The key \<open>a\<close> at time 100 and the different key \<open>b\<close> 2 ms
  later: the handler returns early on \<open>b\<close> and it is neither queued nor sent, also
  after the first request has settled.
\<close>

theorem distinct_key_suppressed:
  "let s = input_exec [Key ''a'' 100, Key ''b'' 102] init_input in
     suppressed ''b'' 102 (input_exec [Key ''a'' 100] init_input) \<and>
     requests s = [''a''] \<and> inputQueue s = [] \<and>
     requests (input_exec [Settled, Frame] s) = [''a'']"
  by (simp add: input_defs)

section \<open>Reconnecting\<close>

lemmas client_defs = init_client_def terminal_write_def connectTerminal_def flushBuffer_def
  scheduleFlush_def render_frame_def current_readyState_def eventSource_close_def
  source_onopen_def source_onmessage_def source_onerror_def source_state_def
  MAX_BUFFER_SIZE_def deref_def update_at_def Let_def

lemma flushBuffer_proj [simp]:
  "timers (flushBuffer i s) = timers s"
  "terminalSessionId (flushBuffer i s) = terminalSessionId s"
  "sessionReady (flushBuffer i s) = sessionReady s"
  "eventSource (flushBuffer i s) = eventSource s"
  "terminal (flushBuffer i s) = terminal s"
  "map readyState (sources (flushBuffer i s)) = map readyState (sources s)"
  "map url_session (sources (flushBuffer i s)) = map url_session (sources s)"
  by (simp_all add: flushBuffer_def Let_def map_update_at_same split: option.splits)

lemma flushBuffer_length [simp]: "length (sources (flushBuffer i s)) = length (sources s)"
  using flushBuffer_proj(6) [of i s] by (metis length_map)

lemma fold_flushBuffer_proj [simp]:
  "timers (fold flushBuffer is s) = timers s"
  "terminalSessionId (fold flushBuffer is s) = terminalSessionId s"
  "map readyState (sources (fold flushBuffer is s)) = map readyState (sources s)"
  "map url_session (sources (fold flushBuffer is s)) = map url_session (sources s)"
  by (induction "is" arbitrary: s) simp_all

lemma deref_map: "map_option f (deref xs i) = deref (map f xs) i"
  by (simp add: deref_def)

lemma source_state_flushBuffer [simp]: "source_state (flushBuffer i s) j = source_state s j"
  by (simp add: source_state_def deref_map)

lemma current_readyState_flushBuffer [simp]:
  "current_readyState (flushBuffer i s) = current_readyState s"
  by (simp add: current_readyState_def deref_map split: option.splits)

lemma render_frame_proj [simp]:
  "timers (render_frame i s) = timers s"
  "terminalSessionId (render_frame i s) = terminalSessionId s"
  "map readyState (sources (render_frame i s)) = map readyState (sources s)"
  "map url_session (sources (render_frame i s)) = map url_session (sources s)"
  by (simp_all add: render_frame_def terminal_write_def map_update_at_same split: option.splits)

lemma source_onmessage_proj [simp]:
  "timers (source_onmessage i m s) = timers s"
  "terminalSessionId (source_onmessage i m s) = terminalSessionId s"
  "map url_session (sources (source_onmessage i m s)) = map url_session (sources s)"
  by (simp_all add: source_onmessage_def terminal_write_def scheduleFlush_def
        eventSource_close_def Let_def map_update_at_same
        split: message.splits frame.splits option.splits)

lemma source_onerror_proj [simp]:
  "terminalSessionId (source_onerror i s) = terminalSessionId s"
  "map url_session (sources (source_onerror i s)) = map url_session (sources s)"
  "map readyState (sources (source_onerror i s)) = map readyState (sources s)"
  by (simp_all add: source_onerror_def terminal_write_def Let_def
        split: option.splits ready_state.splits)

lemma run_timer_proj:
  "terminalSessionId (run_timer cb s) = terminalSessionId s"
  "map url_session (sources (run_timer cb s)) =
     (if cb = OutputWarning then map url_session (sources s)
      else map url_session (sources s) @ [terminalSessionId s])"
  by (cases cb; simp add: connectTerminal_def terminal_write_def Let_def)+

lemma urls_ok_step: "urls_ok sid s \<Longrightarrow> urls_ok sid (client_step e s)"
proof (cases e)
  case (Timeout k)
  assume "urls_ok sid s"
  then show ?thesis
    by (simp add: Timeout urls_ok_def run_timer_proj split: option.splits)
next
  case (Opened i)
  assume "urls_ok sid s"
  then show ?thesis
    by (simp add: Opened urls_ok_def source_onopen_def terminal_write_def map_update_at_same)
next
  case (TransportError i st)
  assume "urls_ok sid s"
  then show ?thesis by (simp add: TransportError urls_ok_def map_update_at_same)
next
  case AnimationFrame
  assume "urls_ok sid s"
  then show ?thesis by (simp add: AnimationFrame urls_ok_def split: list.splits)
qed (simp_all add: urls_ok_def)

lemma urls_ok_exec: "urls_ok sid s \<Longrightarrow> urls_ok sid (client_exec es s)"
  by (induction es arbitrary: s) (simp_all add: urls_ok_step)

lemma dormant_alt:
  "dormant s \<longleftrightarrow> list_all (\<lambda>r. r = CLOSED) (map readyState (sources s)) \<and>
                 list_all (\<lambda>t. snd t = OutputWarning) (timers s)"
  by (simp add: dormant_def list_all_iff)

lemma dormant_source_state:
  "dormant s \<Longrightarrow> source_state s i = Some r \<Longrightarrow> r = CLOSED"
  by (auto simp: dormant_def source_state_def deref_def list_all_iff split: if_splits)

lemma dormant_step:
  assumes "dormant s" and "client_enabled e s"
  shows "dormant (client_step e s) \<and> length (sources (client_step e s)) = length (sources s)"
proof (cases e)
  case (Timeout k)
  with assms(2) have k: "k < length (timers s)" by simp
  from assms(1) have all: "list_all (\<lambda>t. snd t = OutputWarning) (timers s)"
    by (simp add: dormant_def)
  with k have cb: "snd (timers s ! k) = OutputWarning" by (simp add: list_all_length)
  from all have rest: "list_all (\<lambda>t. snd t = OutputWarning) (take k (timers s) @ drop (Suc k) (timers s))"
    by (auto simp: list_all_iff dest: in_set_takeD in_set_dropD)
  show ?thesis
    using assms(1) k cb rest
    by (simp add: Timeout deref_def dormant_def terminal_write_def)
next
  case (Opened i)
  with assms show ?thesis by (auto dest: dormant_source_state)
next
  case (Message i m)
  with assms show ?thesis by (auto dest: dormant_source_state)
next
  case (TransportError i st)
  with assms show ?thesis by (auto dest: dormant_source_state)
next
  case (WriteTimeout i)
  with assms(1) show ?thesis by (simp add: dormant_alt)
next
  case AnimationFrame
  have "length (sources (render_frame i s')) = length (sources s')" for i s'
    using render_frame_proj(3) [of i s'] by (metis length_map)
  with assms(1) show ?thesis by (simp add: AnimationFrame dormant_alt split: list.splits)
next
  case Visible
  have "length (sources (fold flushBuffer is s')) = length (sources s')" for "is" s'
    using fold_flushBuffer_proj(3) [of "is" s'] by (metis length_map)
  with assms(1) show ?thesis by (simp add: Visible dormant_alt)
qed

lemma dormant_exec:
  "dormant s \<Longrightarrow> dormant (client_exec es s) \<and>
     length (sources (client_exec es s)) = length (sources s)"
proof (induction es arbitrary: s)
  case Nil
  then show ?case by simp
next
  case (Cons e es)
  show ?case
  proof (cases "client_enabled e s")
    case True
    from dormant_step [OF Cons.prems True] Cons.IH [of "client_step e s"] True
    show ?thesis by simp
  next
    case False
    with Cons show ?thesis by simp
  qed
qed

lemma error_closed_step:
  assumes "eventSource s = Some i" and "i < length (sources s)"
  defines "s1 \<equiv> client_step (TransportError i CLOSED) s"
  shows "timers s1 = timers s @ [(1000, Reconnect)]"
    and "sessionReady s1 = False"
    and "source_state s1 i = Some CLOSED"
    and "terminalSessionId s1 = terminalSessionId s"
    and "length (sources s1) = length (sources s)"
proof -
  let ?s0 = "s\<lparr>sources := update_at i (\<lambda>x. x\<lparr>readyState := CLOSED\<rparr>) (sources s)\<rparr>"
  have cur: "current_readyState ?s0 = Some CLOSED"
    using assms(1,2) by (simp add: current_readyState_def deref_def nth_update_at)
  have st: "source_state ?s0 i = Some CLOSED"
    using assms(2) by (simp add: source_state_def deref_def nth_update_at)
  have s1: "s1 = (terminal_write (Notice ConnectionClosed) (flushBuffer i ?s0))
            \<lparr>sessionReady := False, timers := timers (flushBuffer i ?s0) @ [(1000, Reconnect)]\<rparr>"
    unfolding s1_def by (simp add: source_onerror_def Let_def cur)
  show "timers s1 = timers s @ [(1000, Reconnect)]" by (simp add: s1 terminal_write_def)
  show "sessionReady s1 = False" by (simp add: s1)
  have "source_state s1 i = source_state (flushBuffer i ?s0) i"
    by (simp add: s1 source_state_def terminal_write_def)
  with st show "source_state s1 i = Some CLOSED" by simp
  show "terminalSessionId s1 = terminalSessionId s" by (simp add: s1 terminal_write_def)
  show "length (sources s1) = length (sources s)" by (simp add: s1 terminal_write_def)
qed

lemma reconnect_timer_step:
  assumes "timers s1 = ts @ [(1000, Reconnect)]"
  defines "s2 \<equiv> client_step (Timeout (length ts)) s1"
  shows "sources s2 = sources s1 @
           [\<lparr>url_session = terminalSessionId s1, readyState = CONNECTING, writeBuffer = [],
             writeTimer = False\<rparr>]"
    and "eventSource s2 = Some (length (sources s1))"
    and "timers s2 = ts"
  unfolding s2_def using assms(1)
  by (simp_all add: deref_def connectTerminal_def nth_append)

lemma exit_frame_step:
  fixes c :: int and g :: "int option"
  assumes "eventSource s = Some i" and "i < length (sources s)"
  defines "s1 \<equiv> client_step (Message i (Msg (FExit c g))) s"
  shows "timers s1 = timers s" and "source_state s1 i = Some CLOSED" and "sessionReady s1 = False"
proof -
  let ?s0 = "(terminal_write (Notice SessionEnded) (flushBuffer i s))\<lparr>sessionReady := False\<rparr>"
  have s1: "s1 = ?s0\<lparr>sources := update_at i (\<lambda>x. x\<lparr>readyState := CLOSED\<rparr>) (sources ?s0)\<rparr>"
    unfolding s1_def using assms(1)
    by (simp add: source_onmessage_def eventSource_close_def terminal_write_def)
  show "timers s1 = timers s" by (simp add: s1 terminal_write_def)
  show "sessionReady s1 = False" by (simp add: s1)
  have "i < length (sources ?s0)" using assms(2) by (simp add: terminal_write_def)
  then show "source_state s1 i = Some CLOSED"
    by (simp add: s1 source_state_def deref_def nth_update_at)
qed

lemma outage_round:
  assumes "connecting_last s"
  defines "s2 \<equiv> client_exec
           [TransportError (length (sources s) - 1) CLOSED, Timeout (length (timers s))] s"
  shows "connecting_last s2" and "length (sources s2) = Suc (length (sources s))"
proof -
  let ?i = "length (sources s) - 1"
  let ?s1 = "client_step (TransportError ?i CLOSED) s"
  from assms(1) have cur: "eventSource s = Some ?i" and i: "?i < length (sources s)"
    and en: "client_enabled (TransportError ?i CLOSED) s"
    by (simp_all add: connecting_last_def)
  note e = error_closed_step [OF cur i]
  note r = reconnect_timer_step [OF e(1)]
  have en2: "client_enabled (Timeout (length (timers s))) ?s1"
    unfolding client_enabled.simps e(1) by simp
  have s2: "s2 = client_step (Timeout (length (timers s))) ?s1"
    unfolding s2_def client_exec.simps using en en2 by (simp only: if_True)
  show "length (sources s2) = Suc (length (sources s))"
    unfolding s2 r(1) using e(5) by simp
  show "connecting_last s2"
    unfolding connecting_last_def s2 r(1,2) source_state_def deref_def using e(5)
    by (simp add: nth_append del: client_step.simps)
qed

lemma outages_grow:
  "connecting_last s \<Longrightarrow>
     connecting_last (outages n s) \<and> length (sources (outages n s)) = length (sources s) + n"
proof (induction n)
  case 0
  then show ?case by simp
next
  case (Suc n)
  then have c: "connecting_last (outages n s)"
    and l: "length (sources (outages n s)) = length (sources s) + n" by simp_all
  from outage_round [OF c] l show ?case by (simp add: Let_def del: client_exec.simps)
qed

lemma outages_from_start:
  "let s = outages n (client_step (Timeout 0) (init_client sid))
   in length (sources s) = Suc n \<and> current_readyState s = Some CONNECTING"
proof -
  let ?s0 = "client_step (Timeout 0) (init_client sid)"
  have c0: "connecting_last ?s0" and l0: "length (sources ?s0) = 1"
    by (simp_all add: connecting_last_def client_defs)
  have cur: "current_readyState s = Some CONNECTING" if "connecting_last s" for s
    using that by (simp add: connecting_last_def current_readyState_def source_state_def)
  from outages_grow [OF c0, of n] l0 cur show ?thesis
    unfolding Let_def by (simp del: client_step.simps)
qed

text \<open>
  Claim C9 says that the client reconnects after every closure of the push channel, also
  after an exit frame. On an exit frame the handler closes the \<^verbatim>\<open>EventSource\<close> itself
  and sets no timer: after connecting, opening and receiving an exit frame, the only
  source is closed, the only pending timer is the output warning, and further events open
  no new source.
\<close>

theorem no_reconnect_after_exit_counterexample:
  "let s = client_exec [Timeout 0, Opened 0, Message 0 (Msg (FExit 0 None))] (init_client ''s1'')
   in map readyState (sources s) = [CLOSED] \<and> timers s = [(2000, OutputWarning)] \<and>
      map readyState (sources (client_exec [Timeout 0, AnimationFrame, Visible, Timeout 0] s)) =
        [CLOSED]"
  by (simp add: client_defs)

text \<open>
  Claim C9, amended. When the current source reports a transport error in the closed
  state, the handler sets exactly one timer of 1000 ms, whatever happened before; when
  that timer fires, \<^verbatim>\<open>connectTerminal\<close> opens a new source in the connecting state for
  the page's session id and makes it the current one. Every source the page ever opens
  carries the one session id of the page. On an exit frame the current source is closed
  and no timer is set; once all sources are closed and no connect timer is pending,
  nothing opens a source again. There is no limit to the reconnects: after any number
  \<open>n\<close> of such closures, each followed by its timer, the page has opened \<open>n + 1\<close>
  sources and is connecting.
\<close>

theorem reconnect_after_transport_close:
  "(eventSource s = Some i \<and> i < length (sources s) \<longrightarrow>
      (let s1 = client_step (TransportError i CLOSED) s;
           s2 = client_step (Timeout (length (timers s))) s1
       in timers s1 = timers s @ [(1000, Reconnect)] \<and> sessionReady s1 = False \<and>
          source_state s1 i = Some CLOSED \<and>
          sources s2 = sources s1 @
            [\<lparr>url_session = terminalSessionId s, readyState = CONNECTING, writeBuffer = [],
              writeTimer = False\<rparr>] \<and>
          eventSource s2 = Some (length (sources s)) \<and> timers s2 = timers s)) \<and>
   list_all (\<lambda>src. url_session src = sid) (sources (client_exec es (init_client sid))) \<and>
   (eventSource s = Some i \<and> i < length (sources s) \<longrightarrow>
      (let s1 = client_step (Message i (Msg (FExit c g))) s
       in timers s1 = timers s \<and> source_state s1 i = Some CLOSED \<and> sessionReady s1 = False)) \<and>
   (dormant s \<longrightarrow>
      dormant (client_exec es s) \<and> length (sources (client_exec es s)) = length (sources s)) \<and>
   (let s' = outages n (client_step (Timeout 0) (init_client sid))
    in length (sources s') = Suc n \<and> current_readyState s' = Some CONNECTING)"
proof -
  have A: "let s1 = client_step (TransportError i CLOSED) s;
           s2 = client_step (Timeout (length (timers s))) s1
       in timers s1 = timers s @ [(1000, Reconnect)] \<and> sessionReady s1 = False \<and>
          source_state s1 i = Some CLOSED \<and>
          sources s2 = sources s1 @
            [\<lparr>url_session = terminalSessionId s, readyState = CONNECTING, writeBuffer = [],
              writeTimer = False\<rparr>] \<and>
          eventSource s2 = Some (length (sources s)) \<and> timers s2 = timers s"
    if h: "eventSource s = Some i" "i < length (sources s)"
  proof -
    note e = error_closed_step [OF h]
    note r = reconnect_timer_step [OF e(1)]
    show ?thesis unfolding Let_def using e r by simp
  qed
  have "urls_ok sid (client_exec es (init_client sid))"
    by (rule urls_ok_exec) (simp add: urls_ok_def init_client_def)
  then have B: "list_all (\<lambda>src. url_session src = sid) (sources (client_exec es (init_client sid)))"
    by (simp add: urls_ok_def list_all_iff)
  have C: "let s1 = client_step (Message i (Msg (FExit c g))) s
       in timers s1 = timers s \<and> source_state s1 i = Some CLOSED \<and> sessionReady s1 = False"
    if h: "eventSource s = Some i" "i < length (sources s)"
    unfolding Let_def using exit_frame_step [OF h, of c g] by simp
  show ?thesis using A B C dormant_exec [of s es] outages_from_start [of n sid] by blast
qed

theorem reconnect_after_transport_close_witness:
  "let s = client_exec [Timeout 0, Opened 0] (init_client ''s1'');
       s1 = client_step (TransportError 0 CLOSED) s;
       s2 = client_step (Timeout (length (timers s))) s1;
       s3 = client_step (Message 0 (Msg (FExit 0 None))) s
   in eventSource s = Some 0 \<and> 0 < length (sources s) \<and>
      client_enabled (TransportError 0 CLOSED) s \<and>
      timers s1 = [(2000, OutputWarning), (1000, Reconnect)] \<and>
      map url_session (sources s2) = [''s1'', ''s1''] \<and>
      map readyState (sources s2) = [CLOSED, CONNECTING] \<and>
      eventSource s2 = Some 1 \<and>
      dormant s3 \<and> length (sources (client_exec [Timeout 0, Visible] s3)) = 1 \<and>
      length (sources (outages 3 (client_step (Timeout 0) (init_client ''s1'')))) = 4"
  using reconnect_after_transport_close
          [of "client_exec [Timeout 0, Opened 0] (init_client ''s1'')" 0 "''s1''"
              "[Timeout 0, Visible]" 0 None 3]
    reconnect_after_transport_close
          [of "client_step (Message 0 (Msg (FExit 0 None)))
                 (client_exec [Timeout 0, Opened 0] (init_client ''s1''))" 0 "''s1''"
              "[Timeout 0, Visible]" 0 None 3]
  by (simp add: client_defs dormant_def del: outages.simps)

end
